theory Spec2Isabelle
  imports Main
begin

section \<open>Values\<close>

text \<open>
  The transport layer of the dashboard (\<^verbatim>\<open>api/client.ts\<close>) handles values it knows
  nothing about (\<^verbatim>\<open>unknown\<close>): request bodies built by the callers and whatever
  \<^verbatim>\<open>response.json()\<close> parsed. \<open>jv\<close> is the type of these values: the scalars,
  \<^verbatim>\<open>undefined\<close>, arrays, plain objects and \<^verbatim>\<open>Date\<close>, the one kind of object that
  the key conversion does not walk.

  The code never computes with a number or a date: it tests a value for truthiness and
  converts it to a string. A number is therefore held by the text that \<^verbatim>\<open>String(n)\<close>
  gives (\<open>''0''\<close> for both zeros, \<open>''NaN''\<close>), and a date by the text of its
  \<^verbatim>\<open>toString()\<close>.

  An object is the list of its own enumerable properties in the order of
  \<^verbatim>\<open>Object.entries\<close>; in an object that exists at run time the keys are distinct
  (\<open>validValue\<close> below). An engine lists keys that are array indices first; both key
  conversions leave such keys as they are and never produce one, so the order of the
  other keys, which is all a collision depends on, is that of the list.
\<close>

datatype jv =
    JUndefined
  | JNull
  | JBool bool
  | JNum string
  | JStr string
  | JDate string
  | JArr "jv list"
  | JObj "(string \<times> jv) list"

fun validValue :: "jv \<Rightarrow> bool" where
  "validValue (JArr xs) = list_all validValue xs"
| "validValue (JObj es) = (distinct (map fst es) \<and> list_all (\<lambda>(k, v). validValue v) es)"
| "validValue obj = True"

text \<open>
  Writing a property: an existing key keeps its place and takes the new value, a new
  key goes to the end. \<^verbatim>\<open>Object.fromEntries\<close> writes the entries in order into an empty
  object, and so does an object literal with spread members.
\<close>

fun setProp :: "string \<Rightarrow> 'v \<Rightarrow> (string \<times> 'v) list \<Rightarrow> (string \<times> 'v) list" where
  "setProp k v [] = [(k, v)]"
| "setProp k v ((k', v') # ps) = (if k' = k then (k, v) # ps else (k', v') # setProp k v ps)"

abbreviation putEntry :: "(string \<times> 'v) list \<Rightarrow> string \<times> 'v \<Rightarrow> (string \<times> 'v) list" where
  "putEntry \<equiv> (\<lambda>obj (k, v). setProp k v obj)"

definition fromEntries :: "(string \<times> 'v) list \<Rightarrow> (string \<times> 'v) list" where
  "fromEntries es = foldl putEntry [] es"


section \<open>Key casing\<close>

text \<open>
  \<^verbatim>\<open>s.replace(/_([a-z])/g, (_, c) => c.toUpperCase())\<close> and
  \<^verbatim>\<open>s.replace(/[A-Z]/g, (c) => `_${c.toLowerCase()}`)\<close>. The character classes are
  the 26 ASCII letters; the case functions are applied to members of these classes
  only. The regular expression scans from the left and a match consumes both of its
  characters.
\<close>

definition lowerAZ :: string where
  "lowerAZ = ''abcdefghijklmnopqrstuvwxyz''"

definition upperAZ :: string where
  "upperAZ = ''ABCDEFGHIJKLMNOPQRSTUVWXYZ''"

definition isLowerAZ :: "char \<Rightarrow> bool" where
  "isLowerAZ c = (c \<in> set lowerAZ)"

definition isUpperAZ :: "char \<Rightarrow> bool" where
  "isUpperAZ c = (c \<in> set upperAZ)"

definition toUpperCase :: "char \<Rightarrow> char" where
  "toUpperCase c = (case map_of (zip lowerAZ upperAZ) c of Some u \<Rightarrow> u | None \<Rightarrow> c)"

definition toLowerCase :: "char \<Rightarrow> char" where
  "toLowerCase c = (case map_of (zip upperAZ lowerAZ) c of Some l \<Rightarrow> l | None \<Rightarrow> c)"

fun snakeToCamel :: "string \<Rightarrow> string" where
  "snakeToCamel (c # d # cs) =
     (if c = CHR ''_'' \<and> isLowerAZ d then toUpperCase d # snakeToCamel cs
      else c # snakeToCamel (d # cs))"
| "snakeToCamel [c] = [c]"
| "snakeToCamel [] = []"

definition camelToSnake :: "string \<Rightarrow> string" where
  "camelToSnake s =
     concat (map (\<lambda>c. if isUpperAZ c then [CHR ''_'', toLowerCase c] else [c]) s)"

text \<open>
  \<^verbatim>\<open>keysToCamel\<close> and \<^verbatim>\<open>keysToSnake\<close>: arrays are mapped, objects other than dates are
  rebuilt from their converted entries, everything else is returned as it is.
\<close>

fun keysToCamel :: "jv \<Rightarrow> jv" where
  "keysToCamel (JArr xs) = JArr (map keysToCamel xs)"
| "keysToCamel (JObj es) =
     JObj (fromEntries (map (\<lambda>(k, v). (snakeToCamel k, keysToCamel v)) es))"
| "keysToCamel obj = obj"

fun keysToSnake :: "jv \<Rightarrow> jv" where
  "keysToSnake (JArr xs) = JArr (map keysToSnake xs)"
| "keysToSnake (JObj es) =
     JObj (fromEntries (map (\<lambda>(k, v). (camelToSnake k, keysToSnake v)) es))"
| "keysToSnake obj = obj"

text \<open>
  A snake_case word boundary: an underscore followed by a lower-case letter, as in
  \<^verbatim>\<open>access_token\<close>.
\<close>

fun hasSnakeBoundary :: "string \<Rightarrow> bool" where
  "hasSnakeBoundary (c # d # cs) = ((c = CHR ''_'' \<and> isLowerAZ d) \<or> hasSnakeBoundary (d # cs))"
| "hasSnakeBoundary [c] = False"
| "hasSnakeBoundary [] = False"

text \<open>The keys of a camelCase-keyed value contain no underscore, at any depth.\<close>

fun camelKeyed :: "jv \<Rightarrow> bool" where
  "camelKeyed (JArr xs) = list_all camelKeyed xs"
| "camelKeyed (JObj es) = list_all (\<lambda>(k, v). CHR ''_'' \<notin> set k \<and> camelKeyed v) es"
| "camelKeyed obj = True"


section \<open>Reading values\<close>

text \<open>
  The exceptions of the language itself that the code can meet: \<^verbatim>\<open>response.json()\<close>
  rejects with a \<^verbatim>\<open>SyntaxError\<close> on a body that is not JSON and with a \<^verbatim>\<open>TypeError\<close>
  when the body cannot be read; reading a property of \<^verbatim>\<open>null\<close> or \<^verbatim>\<open>undefined\<close> and
  converting an object without a usable \<^verbatim>\<open>toString\<close> to a string throw a
  \<^verbatim>\<open>TypeError\<close>.
\<close>

datatype nativeError = SyntaxError | TypeError

text \<open>
  \<^verbatim>\<open>new ApiError(status, code, message)\<close>. The class declares \<^verbatim>\<open>code\<close> a string, but the
  constructor stores what it is given; \<^verbatim>\<open>message\<close> goes through \<^verbatim>\<open>Error\<close>, which
  converts it to a string.
\<close>

datatype thrown = ApiError nat jv string | NativeError nativeError

fun truthy :: "jv \<Rightarrow> bool" where
  "truthy JUndefined = False"
| "truthy JNull = False"
| "truthy (JBool b) = b"
| "truthy (JNum n) = (n \<noteq> ''0'' \<and> n \<noteq> ''NaN'')"
| "truthy (JStr s) = (s \<noteq> [])"
| "truthy (JDate d) = True"
| "truthy (JArr xs) = True"
| "truthy (JObj es) = True"

text \<open>\<^verbatim>\<open>a || b\<close>\<close>

definition orElse :: "jv \<Rightarrow> jv \<Rightarrow> jv" where
  "orElse a b = (if truthy a then a else b)"

text \<open>
  \<^verbatim>\<open>obj.k\<close> for the names the code reads (\<^verbatim>\<open>data\<close>, \<^verbatim>\<open>error\<close>, \<^verbatim>\<open>code\<close>, \<^verbatim>\<open>message\<close>,
  \<^verbatim>\<open>id\<close>, \<^verbatim>\<open>user\<close>, \<^verbatim>\<open>email\<close>, \<^verbatim>\<open>access_token\<close>, \<^verbatim>\<open>refresh_token\<close>): none of them is a
  property of a built-in prototype, so only an object's own properties answer, and a
  scalar, an array or a date answers \<^verbatim>\<open>undefined\<close>.
\<close>

fun getProp :: "jv \<Rightarrow> string \<Rightarrow> nativeError + jv" where
  "getProp JUndefined k = Inl TypeError"
| "getProp JNull k = Inl TypeError"
| "getProp (JObj es) k = Inr (case map_of es k of Some v \<Rightarrow> v | None \<Rightarrow> JUndefined)"
| "getProp obj k = Inr JUndefined"

text \<open>\<^verbatim>\<open>obj?.k\<close>\<close>

definition optChain :: "jv \<Rightarrow> string \<Rightarrow> jv" where
  "optChain obj k = (case getProp obj k of Inl e \<Rightarrow> JUndefined | Inr v \<Rightarrow> v)"

text \<open>
  The conversion to a string that \<^verbatim>\<open>Error\<close> and \<^verbatim>\<open>localStorage.setItem\<close> apply to
  their argument. An array joins the strings of its elements with commas, \<^verbatim>\<open>null\<close> and
  \<^verbatim>\<open>undefined\<close> elements giving the empty string. A plain object is
  \<^verbatim>\<open>[object Object]\<close>, unless it has a property \<^verbatim>\<open>toString\<close> of its own: that one is
  data, not a function, \<^verbatim>\<open>valueOf\<close> gives no primitive either, and the conversion
  throws.
\<close>

fun collect :: "('e + 'a) list \<Rightarrow> 'e + 'a list" where
  "collect [] = Inr []"
| "collect (Inl e # rs) = Inl e"
| "collect (Inr x # rs) = (case collect rs of Inl e \<Rightarrow> Inl e | Inr xs \<Rightarrow> Inr (x # xs))"

fun join :: "string list \<Rightarrow> string" where
  "join [] = []"
| "join [s] = s"
| "join (s # t # ss) = s @ '','' @ join (t # ss)"

fun toStringJs :: "jv \<Rightarrow> nativeError + string" where
  "toStringJs JUndefined = Inr ''undefined''"
| "toStringJs JNull = Inr ''null''"
| "toStringJs (JBool b) = Inr (if b then ''true'' else ''false'')"
| "toStringJs (JNum n) = Inr n"
| "toStringJs (JStr s) = Inr s"
| "toStringJs (JDate d) = Inr d"
| "toStringJs (JArr xs) =
     (case collect (map (\<lambda>x. if x = JUndefined \<or> x = JNull then Inr [] else toStringJs x) xs) of
        Inl e \<Rightarrow> Inl e
      | Inr ss \<Rightarrow> Inr (join ss))"
| "toStringJs (JObj es) =
     (if ''toString'' \<in> fst ` set es then Inl TypeError else Inr ''[object Object]'')"


section \<open>Transport layer\<close>

datatype httpMethod = GET | POST | PUT | PATCH | DELETE

text \<open>\<^verbatim>\<open>RequestOptions\<close>; absent headers are the empty object, an absent body is \<^verbatim>\<open>undefined\<close>.\<close>

record requestOptions =
  methodOpt :: "httpMethod option"
  body :: jv
  headers :: "(string \<times> string) list"

text \<open>
  What \<^verbatim>\<open>fetch\<close> is called with. \<open>url\<close> is the endpoint, to which the configured base
  URL is prefixed; \<open>init_body\<close> is the value handed to \<^verbatim>\<open>JSON.stringify\<close>.
\<close>

record fetchInit =
  url :: string
  init_method :: httpMethod
  init_headers :: "(string \<times> string) list"
  init_body :: "jv option"

text \<open>
  What comes back: \<^verbatim>\<open>fetch\<close> rejects (no response at all), or resolves with a response
  of which the code reads \<^verbatim>\<open>status\<close>, \<^verbatim>\<open>ok\<close>, \<^verbatim>\<open>statusText\<close> and \<^verbatim>\<open>json()\<close>.
\<close>

record response =
  status :: nat
  statusText :: string
  json :: "nativeError + jv"

datatype fetched = Rejected | Response response

definition ok :: "response \<Rightarrow> bool" where
  "ok r = (200 \<le> status r \<and> status r \<le> 299)"

text \<open>\<^verbatim>\<open>localStorage\<close>: \<^verbatim>\<open>getItem\<close> is application, \<^verbatim>\<open>null\<close> is \<open>None\<close>.\<close>

type_synonym storage = "string \<rightharpoonup> string"

definition getAuthHeaders :: "storage \<Rightarrow> (string \<times> string) list" where
  "getAuthHeaders store =
     (case store ''access_token'' of
        None \<Rightarrow> []
      | Some token \<Rightarrow> if token = [] then [] else [(''Authorization'', ''Bearer '' @ token)])"

definition buildRequest :: "storage \<Rightarrow> string \<Rightarrow> requestOptions \<Rightarrow> fetchInit" where
  "buildRequest store endpoint options =
     \<lparr> url = endpoint,
       init_method = (case methodOpt options of None \<Rightarrow> GET | Some m \<Rightarrow> m),
       init_headers = fromEntries ([(''Content-Type'', ''application/json'')]
                                    @ getAuthHeaders store @ headers options),
       init_body = (if truthy (body options) then Some (keysToSnake (body options)) else None) \<rparr>"

definition newApiError :: "nat \<Rightarrow> jv \<Rightarrow> jv \<Rightarrow> thrown" where
  "newApiError st code message =
     (case toStringJs message of Inl e \<Rightarrow> NativeError e | Inr m \<Rightarrow> ApiError st code m)"

definition apiClient ::
  "storage \<Rightarrow> (fetchInit \<Rightarrow> fetched) \<Rightarrow> string \<Rightarrow> requestOptions \<Rightarrow> thrown + jv" where
  "apiClient store fetch endpoint options =
     (case fetch (buildRequest store endpoint options) of
        Rejected \<Rightarrow> Inl (ApiError 0 (JStr ''NETWORK_ERROR'') ''Unable to connect to server'')
      | Response r \<Rightarrow>
          if \<not> ok r then
            (let errorBody = (case json r of Inl e \<Rightarrow> JObj [] | Inr b \<Rightarrow> b) in
             case getProp errorBody ''error'' of
               Inl e \<Rightarrow> Inl (NativeError e)
             | Inr err \<Rightarrow>
                 Inl (newApiError (status r)
                        (orElse (optChain err ''code'') (JStr ''UNKNOWN''))
                        (orElse (optChain err ''message'') (JStr (statusText r)))))
          else if status r = 204 then Inr JUndefined
          else
            (case json r of
               Inl e \<Rightarrow> Inl (NativeError e)
             | Inr j \<Rightarrow>
                 (case getProp j ''data'' of
                    Inl e \<Rightarrow> Inl (NativeError e)
                  | Inr d \<Rightarrow> Inr (keysToCamel (if d \<noteq> JUndefined then d else j)))))"

definition api_get :: "storage \<Rightarrow> (fetchInit \<Rightarrow> fetched) \<Rightarrow> string \<Rightarrow> thrown + jv" where
  "api_get store fetch endpoint =
     apiClient store fetch endpoint \<lparr>methodOpt = None, body = JUndefined, headers = []\<rparr>"

definition api_post :: "storage \<Rightarrow> (fetchInit \<Rightarrow> fetched) \<Rightarrow> string \<Rightarrow> jv \<Rightarrow> thrown + jv" where
  "api_post store fetch endpoint b =
     apiClient store fetch endpoint \<lparr>methodOpt = Some POST, body = b, headers = []\<rparr>"

definition api_patch :: "storage \<Rightarrow> (fetchInit \<Rightarrow> fetched) \<Rightarrow> string \<Rightarrow> jv \<Rightarrow> thrown + jv" where
  "api_patch store fetch endpoint b =
     apiClient store fetch endpoint \<lparr>methodOpt = Some PATCH, body = b, headers = []\<rparr>"

definition api_delete :: "storage \<Rightarrow> (fetchInit \<Rightarrow> fetched) \<Rightarrow> string \<Rightarrow> thrown + jv" where
  "api_delete store fetch endpoint =
     apiClient store fetch endpoint \<lparr>methodOpt = Some DELETE, body = JUndefined, headers = []\<rparr>"


section \<open>Session lifecycle\<close>

text \<open>
  The state the \<^verbatim>\<open>AuthProvider\<close> works on: the browser's \<^verbatim>\<open>localStorage\<close> and its two
  React state cells, \<^verbatim>\<open>user\<close> (an \<^verbatim>\<open>AuthUser\<close> or \<^verbatim>\<open>null\<close>) and \<^verbatim>\<open>loading\<close>.
\<close>

record session =
  localStorage :: storage
  user :: jv
  loading :: bool

text \<open>
  The network as a session operation meets it: \<open>net n\<close> answers the \<open>n\<close>-th call of
  \<^verbatim>\<open>fetch\<close> that the operation makes, counted from 0, as a function of the request.
\<close>

type_synonym network = "nat \<Rightarrow> fetchInit \<Rightarrow> fetched"

definition clearAuth :: "session \<Rightarrow> session" where
  "clearAuth s =
     s\<lparr>localStorage :=
         (localStorage s)(''access_token'' := None, ''refresh_token'' := None,
                          ''user_email'' := None)\<rparr>"

text \<open>\<^verbatim>\<open>localStorage.setItem(key, obj.prop)\<close>: read the property, convert it to a string, store it.\<close>

definition setItemProp :: "session \<Rightarrow> string \<Rightarrow> jv \<Rightarrow> string \<Rightarrow> nativeError + session" where
  "setItemProp s key obj prop =
     (case getProp obj prop of
        Inl e \<Rightarrow> Inl e
      | Inr v \<Rightarrow>
          (case toStringJs v of
             Inl e \<Rightarrow> Inl e
           | Inr str \<Rightarrow> Inr (s\<lparr>localStorage := (localStorage s)(key \<mapsto> str)\<rparr>)))"

text \<open>\<^verbatim>\<open>err instanceof ApiError && err.status === 401\<close>\<close>

fun isAuthFailure :: "thrown \<Rightarrow> bool" where
  "isAuthFailure (ApiError st code message) = (st = 401)"
| "isAuthFailure (NativeError e) = False"

text \<open>\<^verbatim>\<open>{ id: profile.id, email }\<close>\<close>

definition authUser :: "jv \<Rightarrow> string \<Rightarrow> jv" where
  "authUser ident email = JObj [(''id'', ident), (''email'', JStr email)]"

text \<open>
  The inner \<^verbatim>\<open>try\<close> of \<^verbatim>\<open>restoreSession\<close>: refresh, store both tokens, fetch the profile
  again. Its \<^verbatim>\<open>catch\<close> clears the credentials on any exception. \<open>cancelled\<close> is the flag
  of the effect as the continuation that ends the procedure finds it.
\<close>

definition refreshAndRetry :: "network \<Rightarrow> bool \<Rightarrow> string \<Rightarrow> string \<Rightarrow> session \<Rightarrow> session" where
  "refreshAndRetry net cancelled refreshToken email s =
     (case api_post (localStorage s) (net 1) ''/api/auth/refresh''
             (JObj [(''refreshToken'', JStr refreshToken)]) of
        Inl e \<Rightarrow> clearAuth s
      | Inr data \<Rightarrow>
          (case setItemProp s ''access_token'' data ''access_token'' of
             Inl e \<Rightarrow> clearAuth s
           | Inr s1 \<Rightarrow>
               (case setItemProp s1 ''refresh_token'' data ''refresh_token'' of
                  Inl e \<Rightarrow> clearAuth s1
                | Inr s2 \<Rightarrow>
                    (case api_get (localStorage s2) (net 2) ''/api/auth/profile'' of
                       Inl e \<Rightarrow> clearAuth s2
                     | Inr profile \<Rightarrow>
                         if cancelled then s2
                         else
                           (case getProp profile ''id'' of
                              Inl e \<Rightarrow> clearAuth s2
                            | Inr ident \<Rightarrow> s2\<lparr>user := authUser ident email\<rparr>)))))"

text \<open>
  The outer \<^verbatim>\<open>try\<close>/\<^verbatim>\<open>catch\<close>: the first profile fetch, and what each failure leads to.
  Reading \<^verbatim>\<open>profile.id\<close> of an absent profile throws inside the \<^verbatim>\<open>try\<close>, so it is
  caught as an error that is not a 401.
\<close>

definition restoreAttempt :: "network \<Rightarrow> bool \<Rightarrow> string \<Rightarrow> session \<Rightarrow> session" where
  "restoreAttempt net cancelled email s =
     (let tried =
            (case api_get (localStorage s) (net 0) ''/api/auth/profile'' of
               Inl err \<Rightarrow> Inl err
             | Inr profile \<Rightarrow>
                 if cancelled then Inr s
                 else
                   (case getProp profile ''id'' of
                      Inl e \<Rightarrow> Inl (NativeError e)
                    | Inr ident \<Rightarrow> Inr (s\<lparr>user := authUser ident email\<rparr>)))
      in case tried of
           Inr s' \<Rightarrow> s'
         | Inl err \<Rightarrow>
             if isAuthFailure err then
               (case localStorage s ''refresh_token'' of
                  None \<Rightarrow> clearAuth s
                | Some refreshToken \<Rightarrow>
                    if refreshToken = [] then clearAuth s
                    else refreshAndRetry net cancelled refreshToken email s)
             else if cancelled then s
             else s\<lparr>user := authUser (JStr ''unknown'') email\<rparr>)"

definition restoreSession :: "network \<Rightarrow> bool \<Rightarrow> session \<Rightarrow> session" where
  "restoreSession net cancelled s =
     (case localStorage s ''access_token'' of
        None \<Rightarrow> s\<lparr>loading := False\<rparr>
      | Some token \<Rightarrow>
          if token = [] then s\<lparr>loading := False\<rparr>
          else
            (let email = (case localStorage s ''user_email'' of None \<Rightarrow> [] | Some e \<Rightarrow> e);
                 s' = restoreAttempt net cancelled email s
             in if cancelled then s' else s'\<lparr>loading := False\<rparr>))"

text \<open>
  \<^verbatim>\<open>signIn\<close> resolves (\<open>Inr\<close>) or rejects (\<open>Inl\<close>) with what was thrown; either way it
  leaves the state as far as it got.
\<close>

definition signIn :: "network \<Rightarrow> string \<Rightarrow> string \<Rightarrow> session \<Rightarrow> thrown \<times> session + session" where
  "signIn net email password s =
     (case api_post (localStorage s) (net 0) ''/api/auth/login''
             (JObj [(''email'', JStr email), (''password'', JStr password)]) of
        Inl e \<Rightarrow> Inl (e, s)
      | Inr data \<Rightarrow>
          (case setItemProp s ''access_token'' data ''access_token'' of
             Inl e \<Rightarrow> Inl (NativeError e, s)
           | Inr s1 \<Rightarrow>
               (case setItemProp s1 ''refresh_token'' data ''refresh_token'' of
                  Inl e \<Rightarrow> Inl (NativeError e, s1)
                | Inr s2 \<Rightarrow>
                    (case getProp data ''user'' of
                       Inl e \<Rightarrow> Inl (NativeError e, s2)
                     | Inr u \<Rightarrow>
                         (case setItemProp s2 ''user_email'' u ''email'' of
                            Inl e \<Rightarrow> Inl (NativeError e, s2)
                          | Inr s3 \<Rightarrow> Inr (s3\<lparr>user := u\<rparr>))))))"

text \<open>\<^verbatim>\<open>signOut\<close>: the outcome of the logout call is dropped by the empty \<^verbatim>\<open>catch\<close>.\<close>

definition signOut :: "network \<Rightarrow> session \<Rightarrow> session" where
  "signOut net s =
     (case api_post (localStorage s) (net 0) ''/api/auth/logout'' JUndefined of
        Inl e \<Rightarrow> (clearAuth s)\<lparr>user := JNull\<rparr>
      | Inr r \<Rightarrow> (clearAuth s)\<lparr>user := JNull\<rparr>)"


section \<open>Sample values\<close>

definition holdingPayload :: jv where
  "holdingPayload =
     JObj [(''portfolioId'', JStr ''p1''),
           (''lots'', JArr [JObj [(''purchasePrice'', JNum ''1.5''), (''purchaseDate'', JDate ''d'')]]),
           (''baseCurrency'', JNull)]"

definition plainOptions :: requestOptions where
  "plainOptions = \<lparr>methodOpt = None, body = JUndefined, headers = []\<rparr>"

definition basicAuthOptions :: requestOptions where
  "basicAuthOptions =
     \<lparr>methodOpt = None, body = JUndefined, headers = [(''Authorization'', ''Basic dXNlcg=='')]\<rparr>"

definition okJson :: "jv \<Rightarrow> fetched" where
  "okJson j = Response \<lparr>status = 200, statusText = ''OK'', json = Inr j\<rparr>"

text \<open>A proxy answers 200 with a page that is not JSON.\<close>

definition htmlInsteadOfJson :: "fetchInit \<Rightarrow> fetched" where
  "htmlInsteadOfJson req = Response \<lparr>status = 200, statusText = ''OK'', json = Inl SyntaxError\<rparr>"







text \<open>No call reaches a server.\<close>

definition serverDown :: network where
  "serverDown n req = Rejected"

text \<open>
  The stored access token has expired: the profile fetch is answered 401, the refresh
  endpoint answers with a new pair of tokens, the second profile fetch succeeds.
\<close>

definition expiredTokenRun :: network where
  "expiredTokenRun n req =
     (if n = 0 then
        Response \<lparr>status = 401, statusText = ''Unauthorized'',
                  json = Inr (JObj [(''error'', JObj [(''code'', JStr ''TOKEN_EXPIRED''),
                                                      (''message'', JStr ''Token expired'')])])\<rparr>
      else if n = 1 then
        okJson (JObj [(''access_token'', JStr ''A1''), (''refresh_token'', JStr ''R1'')])
      else okJson (JObj [(''id'', JStr ''u1'')]))"

text \<open>The login endpoint accepts the credentials.\<close>

definition loginAccepted :: network where
  "loginAccepted n req =
     okJson (JObj [(''access_token'', JStr ''A1''), (''refresh_token'', JStr ''R1''),
                   (''user'', JObj [(''id'', JStr ''u1''), (''email'', JStr ''a@b.com'')])])"

definition staleSession :: session where
  "staleSession =
     \<lparr>localStorage = [''access_token'' \<mapsto> ''A0'', ''refresh_token'' \<mapsto> ''R0'',
                       ''user_email'' \<mapsto> ''a@b.com''],
      user = JNull, loading = True\<rparr>"

definition freshSession :: session where
  "freshSession = \<lparr>localStorage = Map.empty, user = JNull, loading = False\<rparr>"


section \<open>Properties of the key casing\<close>

subsection \<open>Letters\<close>

lemma lower_letters:
  "\<forall>c\<in>set lowerAZ. toLowerCase (toUpperCase c) = c \<and> isUpperAZ (toUpperCase c)
      \<and> \<not> isUpperAZ c \<and> c \<noteq> CHR ''_''"
  by code_simp

lemma upper_letters:
  "\<forall>c\<in>set upperAZ. toUpperCase (toLowerCase c) = c \<and> isLowerAZ (toLowerCase c)
      \<and> \<not> isLowerAZ c \<and> c \<noteq> CHR ''_''"
  by code_simp

lemma lowerD:
  assumes "isLowerAZ c"
  shows "toLowerCase (toUpperCase c) = c" "isUpperAZ (toUpperCase c)"
    "\<not> isUpperAZ c" "c \<noteq> CHR ''_''"
  using assms lower_letters by (auto simp: isLowerAZ_def)

lemma upperD:
  assumes "isUpperAZ c"
  shows "toUpperCase (toLowerCase c) = c" "isLowerAZ (toLowerCase c)"
    "\<not> isLowerAZ c" "c \<noteq> CHR ''_''"
  using assms upper_letters by (auto simp: isUpperAZ_def)

lemma underscore_plain: "\<not> isUpperAZ (CHR ''_'')" "\<not> isLowerAZ (CHR ''_'')"
  by (simp_all add: isUpperAZ_def isLowerAZ_def upperAZ_def lowerAZ_def)

subsection \<open>Strings\<close>

lemma camelToSnake_Nil: "camelToSnake [] = []"
  by (simp add: camelToSnake_def)

lemma camelToSnake_Cons:
  "camelToSnake (c # s) =
     (if isUpperAZ c then CHR ''_'' # toLowerCase c # camelToSnake s else c # camelToSnake s)"
  by (simp add: camelToSnake_def)

lemma camelToSnake_snakeToCamel: "camelToSnake (snakeToCamel s) = camelToSnake s"
proof (induction s rule: snakeToCamel.induct)
  case (1 c d cs)
  then show ?case
    by (auto simp: camelToSnake_Cons lowerD underscore_plain)
qed simp_all

lemma snakeToCamel_skip:
  assumes "c \<noteq> CHR ''_'' \<or> t = [] \<or> \<not> isLowerAZ (hd t)"
  shows "snakeToCamel (c # t) = c # snakeToCamel t"
  using assms by (cases t) auto

lemma hd_camelToSnake:
  "camelToSnake (d # cs) \<noteq> [] \<and> (isLowerAZ (hd (camelToSnake (d # cs))) \<longrightarrow> isLowerAZ d)"
  by (auto simp: camelToSnake_Cons underscore_plain)

lemma snakeToCamel_camelToSnake: "snakeToCamel (camelToSnake s) = snakeToCamel s"
proof (induction s rule: snakeToCamel.induct)
  case (1 c d cs)
  show ?case
  proof (cases "c = CHR ''_'' \<and> isLowerAZ d")
    case True
    with 1 show ?thesis
      by (simp add: camelToSnake_Cons lowerD underscore_plain)
  next
    case False
    with 1 have IH: "snakeToCamel (camelToSnake (d # cs)) = snakeToCamel (d # cs)"
      by simp
    show ?thesis
    proof (cases "isUpperAZ c")
      case True
      have "snakeToCamel (camelToSnake (c # d # cs))
            = snakeToCamel (CHR ''_'' # toLowerCase c # camelToSnake (d # cs))"
        using True by (simp add: camelToSnake_Cons)
      also have "\<dots> = c # snakeToCamel (camelToSnake (d # cs))"
        using True by (simp add: upperD)
      finally show ?thesis using IH False by auto
    next
      case notUpper: False
      have "snakeToCamel (camelToSnake (c # d # cs))
            = snakeToCamel (c # camelToSnake (d # cs))"
        using notUpper by (simp add: camelToSnake_Cons)
      also have "\<dots> = c # snakeToCamel (camelToSnake (d # cs))"
        using False hd_camelToSnake[of d cs] by (intro snakeToCamel_skip) auto
      finally show ?thesis using IH False by auto
    qed
  qed
next
  case (2 c)
  show ?case by (simp add: camelToSnake_Cons camelToSnake_Nil upperD)
next
  case 3
  show ?case by (simp add: camelToSnake_Nil)
qed

lemma snakeToCamel_no_underscore: "CHR ''_'' \<notin> set s \<Longrightarrow> snakeToCamel s = s"
  by (induction s rule: snakeToCamel.induct) auto

lemma camelToSnake_no_upper: "\<forall>c\<in>set s. \<not> isUpperAZ c \<Longrightarrow> camelToSnake s = s"
  by (induction s) (auto simp: camelToSnake_Cons camelToSnake_Nil)

lemma camelToSnake_lowered: "\<forall>c\<in>set (camelToSnake s). \<not> isUpperAZ c"
  by (induction s) (auto simp: camelToSnake_Cons camelToSnake_Nil underscore_plain upperD lowerD)

lemma camelToSnake_idem: "camelToSnake (camelToSnake s) = camelToSnake s"
  by (rule camelToSnake_no_upper) (rule camelToSnake_lowered)

lemma hasSnakeBoundary_Cons:
  "hasSnakeBoundary (c # t) = (t \<noteq> [] \<and> ((c = CHR ''_'' \<and> isLowerAZ (hd t)) \<or> hasSnakeBoundary t))"
  by (cases t) auto

lemma hd_snakeToCamel:
  "snakeToCamel (d # cs) \<noteq> [] \<and> (isLowerAZ (hd (snakeToCamel (d # cs))) \<longrightarrow> isLowerAZ d)"
  by (cases cs) (auto simp: underscore_plain dest: lowerD(2) upperD(3))

lemma snakeToCamel_no_boundary: "\<not> hasSnakeBoundary (snakeToCamel s)"
proof (induction s rule: snakeToCamel.induct)
  case (1 c d cs)
  show ?case
  proof (cases "c = CHR ''_'' \<and> isLowerAZ d")
    case True
    then have "toUpperCase d \<noteq> CHR ''_''"
      using lowerD(2)[of d] upperD(4)[of "toUpperCase d"] by simp
    with True 1 show ?thesis by (simp add: hasSnakeBoundary_Cons)
  next
    case False
    with 1 have IH: "\<not> hasSnakeBoundary (snakeToCamel (d # cs))" by simp
    from False hd_snakeToCamel[of d cs]
    have "\<not> (c = CHR ''_'' \<and> isLowerAZ (hd (snakeToCamel (d # cs))))" by auto
    moreover from False have "snakeToCamel (c # d # cs) = c # snakeToCamel (d # cs)" by auto
    ultimately show ?thesis using IH by (simp only: hasSnakeBoundary_Cons) simp
  qed
qed simp_all

subsection \<open>Objects\<close>

lemma keys_setProp: "fst ` set (setProp k v ps) = insert k (fst ` set ps)"
  by (induction ps) force+

lemma distinct_setProp: "distinct (map fst ps) \<Longrightarrow> distinct (map fst (setProp k v ps))"
  by (induction ps) (auto simp: keys_setProp)

lemma setProp_fresh: "k \<notin> fst ` set ps \<Longrightarrow> setProp k v ps = ps @ [(k, v)]"
  by (induction ps) auto

lemma setProp_map:
  "inj_on F (insert k (fst ` set ps)) \<Longrightarrow>
   setProp (F k) (h v) (map (\<lambda>(k, v). (F k, h v)) ps) = map (\<lambda>(k, v). (F k, h v)) (setProp k v ps)"
proof (induction ps)
  case Nil
  show ?case by simp
next
  case (Cons p ps)
  obtain k' v' where p: "p = (k', v')" by (cases p)
  from Cons.prems have inj': "inj_on F (insert k (fst ` set ps))"
    by (rule inj_on_subset) auto
  from Cons.prems p have "F k' = F k \<longleftrightarrow> k' = k"
    by (auto simp: inj_on_def)
  with Cons.IH[OF inj'] p show ?case by simp
qed

lemma keys_foldl_setProp:
  "fst ` set (foldl putEntry acc es) = fst ` set acc \<union> fst ` set es"
proof (induction es arbitrary: acc)
  case Nil
  show ?case by simp
next
  case (Cons e es)
  obtain k v where e: "e = (k, v)" by (cases e)
  show ?case using Cons.IH[of "setProp k v acc"] by (simp add: e keys_setProp)
qed

lemma distinct_foldl_setProp:
  "distinct (map fst acc) \<Longrightarrow> distinct (map fst (foldl putEntry acc es))"
  by (induction es arbitrary: acc) (auto simp: distinct_setProp split: prod.splits)

lemma foldl_setProp_fresh:
  "distinct (map fst (acc @ es)) \<Longrightarrow> foldl putEntry acc es = acc @ es"
proof (induction es arbitrary: acc)
  case Nil
  show ?case by simp
next
  case (Cons e es)
  obtain k v where e: "e = (k, v)" by (cases e)
  from Cons.prems e have fresh: "k \<notin> fst ` set acc" by auto
  from Cons.prems e have "distinct (map fst ((acc @ [(k, v)]) @ es))" by simp
  from Cons.IH[OF this] fresh e show ?case by (simp add: setProp_fresh)
qed

lemma foldl_setProp_map:
  "inj_on F (fst ` set acc \<union> fst ` set es) \<Longrightarrow>
   foldl putEntry (map (\<lambda>(k, v). (F k, h v)) acc) (map (\<lambda>(k, v). (F k, h v)) es)
     = map (\<lambda>(k, v). (F k, h v)) (foldl putEntry acc es)"
proof (induction es arbitrary: acc)
  case Nil
  show ?case by simp
next
  case (Cons e es)
  obtain k v where e: "e = (k, v)" by (cases e)
  from Cons.prems e have 1: "inj_on F (insert k (fst ` set acc))"
    by (auto intro: inj_on_subset)
  from Cons.prems e have 2: "inj_on F (fst ` set (setProp k v acc) \<union> fst ` set es)"
    by (auto simp: keys_setProp intro: inj_on_subset)
  show ?case
    using Cons.IH[OF 2] setProp_map[OF 1, of h v] e by simp
qed

lemma keys_fromEntries: "fst ` set (fromEntries es) = fst ` set es"
  by (simp add: fromEntries_def keys_foldl_setProp)

lemma distinct_fromEntries: "distinct (map fst (fromEntries es))"
  by (simp add: fromEntries_def distinct_foldl_setProp)

lemma fromEntries_distinct: "distinct (map fst es) \<Longrightarrow> fromEntries es = es"
  using foldl_setProp_fresh[of "[]" es] by (simp add: fromEntries_def)

lemma fromEntries_map:
  "inj_on F (fst ` set es) \<Longrightarrow>
   fromEntries (map (\<lambda>(k, v). (F k, h v)) es) = map (\<lambda>(k, v). (F k, h v)) (fromEntries es)"
  using foldl_setProp_map[of F "[]" es h] by (simp add: fromEntries_def)

lemma fromEntries_twice:
  assumes inj: "inj_on F (G ` fst ` set es)"
    and vals: "\<And>k v. (k, v) \<in> set es \<Longrightarrow> h2 (h1 v) = h3 v"
  shows "fromEntries (map (\<lambda>(k, v). (F k, h2 v)) (fromEntries (map (\<lambda>(k, v). (G k, h1 v)) es)))
         = fromEntries (map (\<lambda>(k, v). (F (G k), h3 v)) es)"
proof -
  let ?ys = "map (\<lambda>(k, v). (G k, h1 v)) es"
  have keys: "fst ` set ?ys = G ` fst ` set es" by force
  have inj1: "inj_on F (fst ` set (fromEntries ?ys))"
    unfolding keys_fromEntries keys by (rule inj)
  have inj2: "inj_on F (fst ` set ?ys)"
    unfolding keys by (rule inj)
  have "fromEntries (map (\<lambda>(k, v). (F k, h2 v)) (fromEntries ?ys))
        = map (\<lambda>(k, v). (F k, h2 v)) (fromEntries (fromEntries ?ys))"
    by (rule fromEntries_map[OF inj1])
  also have "\<dots> = map (\<lambda>(k, v). (F k, h2 v)) (fromEntries ?ys)"
    by (simp add: fromEntries_distinct distinct_fromEntries)
  also have "\<dots> = fromEntries (map (\<lambda>(k, v). (F k, h2 v)) ?ys)"
    by (rule fromEntries_map[OF inj2, symmetric])
  also have "map (\<lambda>(k, v). (F k, h2 v)) ?ys = map (\<lambda>(k, v). (F (G k), h3 v)) es"
    using vals by auto
  finally show ?thesis .
qed

lemma inj_camelToSnake_on_camel: "inj_on camelToSnake (snakeToCamel ` A)"
proof (rule inj_onI)
  fix x y assume "x \<in> snakeToCamel ` A" "y \<in> snakeToCamel ` A" "camelToSnake x = camelToSnake y"
  then obtain a b where ab: "x = snakeToCamel a" "y = snakeToCamel b"
    and eq: "camelToSnake (snakeToCamel a) = camelToSnake (snakeToCamel b)" by auto
  from eq have "camelToSnake a = camelToSnake b" by (simp add: camelToSnake_snakeToCamel)
  then have "snakeToCamel (camelToSnake a) = snakeToCamel (camelToSnake b)" by simp
  then show "x = y" using ab by (simp add: snakeToCamel_camelToSnake)
qed

lemma inj_snakeToCamel_on_snake: "inj_on snakeToCamel (camelToSnake ` A)"
proof (rule inj_onI)
  fix x y assume "x \<in> camelToSnake ` A" "y \<in> camelToSnake ` A" "snakeToCamel x = snakeToCamel y"
  then obtain a b where ab: "x = camelToSnake a" "y = camelToSnake b"
    and eq: "snakeToCamel (camelToSnake a) = snakeToCamel (camelToSnake b)" by auto
  from eq have "snakeToCamel a = snakeToCamel b" by (simp add: snakeToCamel_camelToSnake)
  then have "camelToSnake (snakeToCamel a) = camelToSnake (snakeToCamel b)" by simp
  then show "x = y" using ab by (simp add: camelToSnake_snakeToCamel)
qed

lemma inj_camelToSnake_on_snake: "inj_on camelToSnake (camelToSnake ` A)"
  by (rule inj_onI) (auto simp: camelToSnake_idem)

subsection \<open>Nested values\<close>

lemma keysToSnake_keysToCamel: "keysToSnake (keysToCamel x) = keysToSnake x"
proof (induction x)
  case (JObj es)
  have "fromEntries (map (\<lambda>(k, v). (camelToSnake k, keysToSnake v))
          (fromEntries (map (\<lambda>(k, v). (snakeToCamel k, keysToCamel v)) es)))
        = fromEntries (map (\<lambda>(k, v). (camelToSnake (snakeToCamel k), keysToSnake v)) es)"
    by (rule fromEntries_twice[OF inj_camelToSnake_on_camel]) (use JObj in force)
  then show ?case by (simp add: camelToSnake_snakeToCamel)
qed simp_all

lemma keysToCamel_keysToSnake: "keysToCamel (keysToSnake x) = keysToCamel x"
proof (induction x)
  case (JObj es)
  have "fromEntries (map (\<lambda>(k, v). (snakeToCamel k, keysToCamel v))
          (fromEntries (map (\<lambda>(k, v). (camelToSnake k, keysToSnake v)) es)))
        = fromEntries (map (\<lambda>(k, v). (snakeToCamel (camelToSnake k), keysToCamel v)) es)"
    by (rule fromEntries_twice[OF inj_snakeToCamel_on_snake]) (use JObj in force)
  then show ?case by (simp add: snakeToCamel_camelToSnake)
qed simp_all

lemma keysToCamel_camelKeyed: "validValue x \<Longrightarrow> camelKeyed x \<Longrightarrow> keysToCamel x = x"
proof (induction x)
  case (JArr xs)
  then show ?case by (auto simp: list_all_iff intro: map_idI)
next
  case (JObj es)
  have "map (\<lambda>(k, v). (snakeToCamel k, keysToCamel v)) es = es"
    using JObj by (intro map_idI) (force simp: list_all_iff snakeToCamel_no_underscore)
  with JObj.prems show ?case by (simp add: fromEntries_distinct)
qed simp_all

text \<open>
  C4. On every value made of plain objects, arrays and scalars, converting to camelCase
  and then to snake_case gives what converting to snake_case alone gives, and
  converting to snake_case and then to camelCase gives what converting to camelCase
  alone gives; whatever the keys are, also where two keys fall together. A value whose
  keys contain no underscore comes back from snake_case and camelCase exactly as it was.
\<close>

theorem keysToSnake_keysToCamel_inverse:
  "keysToSnake (keysToCamel x) = keysToSnake x
   \<and> keysToCamel (keysToSnake x) = keysToCamel x
   \<and> (validValue x \<and> camelKeyed x \<longrightarrow> keysToCamel (keysToSnake x) = x)"
  by (simp add: keysToSnake_keysToCamel keysToCamel_keysToSnake keysToCamel_camelKeyed)

theorem keysToSnake_keysToCamel_inverse_witness:
  "validValue holdingPayload \<and> camelKeyed holdingPayload
   \<and> keysToSnake holdingPayload =
       JObj [(''portfolio_id'', JStr ''p1''),
             (''lots'', JArr [JObj [(''purchase_price'', JNum ''1.5''), (''purchase_date'', JDate ''d'')]]),
             (''base_currency'', JNull)]
   \<and> keysToCamel (keysToSnake holdingPayload) = holdingPayload"
  using keysToSnake_keysToCamel_inverse[of holdingPayload]
  by (simp add: holdingPayload_def fromEntries_def camelToSnake_def isUpperAZ_def upperAZ_def
      toLowerCase_def lowerAZ_def)

text \<open>
  C10. \<^verbatim>\<open>keysToSnake\<close> is idempotent on every value made of plain objects, arrays and
  scalars: its keys hold no capital letter, so a second pass changes none of them.
\<close>

theorem keysToSnake_idempotent: "keysToSnake (keysToSnake x) = keysToSnake x"
proof (induction x)
  case (JObj es)
  have "fromEntries (map (\<lambda>(k, v). (camelToSnake k, keysToSnake v))
          (fromEntries (map (\<lambda>(k, v). (camelToSnake k, keysToSnake v)) es)))
        = fromEntries (map (\<lambda>(k, v). (camelToSnake (camelToSnake k), keysToSnake v)) es)"
    by (rule fromEntries_twice[OF inj_camelToSnake_on_snake]) (use JObj in force)
  then show ?case by (simp add: camelToSnake_idem)
qed simp_all


section \<open>Properties of the transport layer\<close>

subsection \<open>What leaves \<^verbatim>\<open>apiClient\<close>\<close>

text \<open>
  C3. \<^verbatim>\<open>apiClient\<close> is to resolve with a payload or reject with an \<^verbatim>\<open>ApiError\<close>, whatever
  the exchange does, a 2xx response with a body that is not JSON included. On such a
  response the code rejects with the \<^verbatim>\<open>SyntaxError\<close> of \<^verbatim>\<open>response.json()\<close>: the parse of
  the success body is outside every \<^verbatim>\<open>try\<close>, unlike the parse of the error body.
\<close>

theorem apiClient_rejects_with_SyntaxError:
  "apiClient Map.empty htmlInsteadOfJson ''/api/portfolios'' plainOptions
     = Inl (NativeError SyntaxError)"
  by code_simp

subsection \<open>Error classification\<close>




subsection \<open>The bearer header\<close>

lemma map_of_setProp: "map_of (setProp k v ps) = (map_of ps)(k \<mapsto> v)"
  by (induction ps) auto

lemma map_of_foldl_setProp_other:
  "k \<notin> fst ` set es \<Longrightarrow> map_of (foldl putEntry acc es) k = map_of acc k"
proof (induction es arbitrary: acc)
  case Nil
  show ?case by simp
next
  case (Cons e es)
  obtain k' v' where e: "e = (k', v')" by (cases e)
  from Cons.prems e have "k' \<noteq> k" "k \<notin> fst ` set es" by auto
  with Cons.IH[of "setProp k' v' acc"] e show ?case by (simp add: map_of_setProp)
qed

text \<open>
  A stored token that is the empty string gives no header, and a caller that passes an
  \<^verbatim>\<open>Authorization\<close> header of its own gets it sent, token or no token.
\<close>

theorem authorization_header_counterexamples:
  "map_of (init_headers (buildRequest [''access_token'' \<mapsto> []] ''/api/portfolios'' plainOptions))
       ''Authorization'' = None
   \<and> map_of (init_headers (buildRequest Map.empty ''/api/portfolios'' basicAuthOptions))
       ''Authorization'' = Some ''Basic dXNlcg==''"
  by code_simp

text \<open>
  C8, amended. When the caller's own headers do not name \<^verbatim>\<open>Authorization\<close>, the request
  carries \<^verbatim>\<open>Authorization: Bearer t\<close> exactly when \<^verbatim>\<open>access_token\<close> holds a non-empty
  string \<^verbatim>\<open>t\<close> at the moment of the call, and no \<^verbatim>\<open>Authorization\<close> header at all when the
  key is absent or empty.
\<close>

theorem authorization_header:
  assumes "''Authorization'' \<notin> fst ` set (headers options)"
  shows "map_of (init_headers (buildRequest store endpoint options)) ''Authorization''
         = (case store ''access_token'' of
              None \<Rightarrow> None
            | Some token \<Rightarrow> if token = [] then None else Some (''Bearer '' @ token))"
proof -
  have "map_of (init_headers (buildRequest store endpoint options)) ''Authorization''
        = map_of (foldl putEntry [] ([(''Content-Type'', ''application/json'')] @ getAuthHeaders store))
            ''Authorization''"
    using assms by (simp add: buildRequest_def fromEntries_def map_of_foldl_setProp_other)
  then show ?thesis
    by (simp add: getAuthHeaders_def split: option.split)
qed

theorem authorization_header_witness:
  "map_of (init_headers (buildRequest [''access_token'' \<mapsto> ''A0''] ''/api/portfolios'' plainOptions))
       ''Authorization'' = Some ''Bearer A0''
   \<and> map_of (init_headers (buildRequest Map.empty ''/api/portfolios'' plainOptions))
       ''Authorization'' = None"
  using authorization_header[of plainOptions "[''access_token'' \<mapsto> ''A0'']" "''/api/portfolios''"]
        authorization_header[of plainOptions Map.empty "''/api/portfolios''"]
  by (simp add: plainOptions_def)

subsection \<open>The envelope\<close>

lemma apiClient_unwraps_data:
  assumes "fetch (buildRequest store endpoint options) = Response r"
    and "ok r" and "status r \<noteq> 204" and "json r = Inr j" and "j \<noteq> JNull" and "j \<noteq> JUndefined"
  shows "apiClient store fetch endpoint options
         = Inr (keysToCamel (case j of
                               JObj es \<Rightarrow> (case map_of es ''data'' of
                                             None \<Rightarrow> j
                                           | Some d \<Rightarrow> if d = JUndefined then j else d)
                             | _ \<Rightarrow> j))"
  using assms by (cases j) (auto simp: apiClient_def split: option.split)

lemma apiClient_envelope_examples:
  "apiClient Map.empty (\<lambda>req. okJson (JObj [(''success'', JBool True), (''data'', JObj [(''a'', JNum ''1'')])]))
      ''/x'' plainOptions = Inr (JObj [(''a'', JNum ''1'')])
   \<and> apiClient Map.empty (\<lambda>req. okJson (JObj [(''a'', JNum ''1'')])) ''/x'' plainOptions
      = Inr (JObj [(''a'', JNum ''1'')])"
  by code_simp

text \<open>
  C9. Every 2xx JSON body is to decode to its \<^verbatim>\<open>data\<close> member if it has one and to the
  whole body otherwise, keys converted. The body \<^verbatim>\<open>null\<close> is JSON and has no \<^verbatim>\<open>data\<close>
  member; on it \<^verbatim>\<open>json.data\<close> throws a \<^verbatim>\<open>TypeError\<close>, and \<^verbatim>\<open>apiClient\<close> rejects with it
  where the whole body, \<^verbatim>\<open>null\<close>, was to be the result. Every other body decodes as
  stated (\<open>apiClient_unwraps_data\<close>).
\<close>

theorem apiClient_null_body_TypeError:
  "apiClient Map.empty (\<lambda>req. okJson JNull) ''/api/portfolios'' plainOptions
     = Inl (NativeError TypeError)"
  by code_simp


section \<open>Properties of the session lifecycle\<close>

subsection \<open>What the session code finds in a payload\<close>

text \<open>
  No key that \<^verbatim>\<open>snakeToCamel\<close> produces has a snake_case word boundary, so a payload that
  \<^verbatim>\<open>apiClient\<close> returns has no property \<^verbatim>\<open>access_token\<close> or \<^verbatim>\<open>refresh_token\<close>, whatever
  the server sent: reading one gives \<^verbatim>\<open>undefined\<close>, and storing what was read stores the
  string \<^verbatim>\<open>undefined\<close>.
\<close>

lemma getProp_keysToCamel:
  assumes "hasSnakeBoundary k" and "getProp (keysToCamel x) k = Inr v"
  shows "v = JUndefined"
proof (cases x)
  case (JObj es)
  have "k \<notin> fst ` set (fromEntries (map (\<lambda>(k, v). (snakeToCamel k, keysToCamel v)) es))"
  proof
    assume "k \<in> fst ` set (fromEntries (map (\<lambda>(k, v). (snakeToCamel k, keysToCamel v)) es))"
    then have "k \<in> fst ` set (map (\<lambda>(k, v). (snakeToCamel k, keysToCamel v)) es)"
      by (simp only: keys_fromEntries)
    then obtain k' where "k = snakeToCamel k'" by auto
    with assms(1) snakeToCamel_no_boundary[of k'] show False by simp
  qed
  then have "map_of (fromEntries (map (\<lambda>(k, v). (snakeToCamel k, keysToCamel v)) es)) k = None"
    by (simp add: map_of_eq_None_iff)
  with assms(2) JObj show ?thesis by simp
qed (use assms(2) in auto)

lemma apiClient_result:
  assumes "apiClient store fetch endpoint options = Inr data"
  shows "data = JUndefined \<or> (\<exists>d. data = keysToCamel d)"
  using assms
  by (auto simp: apiClient_def split: fetched.splits if_splits sum.splits)

lemma setItemProp_snake_key:
  assumes "apiClient store fetch endpoint options = Inr data"
    and "hasSnakeBoundary prop"
    and "setItemProp s key data prop = Inr s'"
  shows "s' = s\<lparr>localStorage := (localStorage s)(key \<mapsto> ''undefined'')\<rparr>"
proof -
  from apiClient_result[OF assms(1)] assms(3) obtain d where d: "data = keysToCamel d"
    by (auto simp: setItemProp_def)
  from assms(3) obtain v where v: "getProp data prop = Inr v"
    by (auto simp: setItemProp_def split: sum.splits)
  with d assms(2) have "v = JUndefined" by (auto dest: getProp_keysToCamel)
  with v assms(3) show ?thesis by (simp add: setItemProp_def)
qed

lemma token_keys_snake: "hasSnakeBoundary ''access_token''" "hasSnakeBoundary ''refresh_token''"
  by code_simp+

lemma signIn_never_stores_tokens:
  assumes "signIn net email password s = Inr s'"
  shows "localStorage s' ''access_token'' = Some ''undefined''
         \<and> localStorage s' ''refresh_token'' = Some ''undefined''"
proof -
  let ?call = "api_post (localStorage s) (net 0) ''/api/auth/login''
                 (JObj [(''email'', JStr email), (''password'', JStr password)])"
  from assms obtain data s1 s2 u s3 where
    data: "?call = Inr data"
    and s1: "setItemProp s ''access_token'' data ''access_token'' = Inr s1"
    and s2: "setItemProp s1 ''refresh_token'' data ''refresh_token'' = Inr s2"
    and u: "getProp data ''user'' = Inr u"
    and s3: "setItemProp s2 ''user_email'' u ''email'' = Inr s3"
    and s': "s' = s3\<lparr>user := u\<rparr>"
    by (auto simp: signIn_def split: sum.splits)
  from data have call: "apiClient (localStorage s) (net 0) ''/api/auth/login''
      \<lparr>methodOpt = Some POST, body = JObj [(''email'', JStr email), (''password'', JStr password)], headers = []\<rparr> = Inr data"
    by (simp add: api_post_def)
  note a = setItemProp_snake_key[OF call token_keys_snake(1) s1]
  note b = setItemProp_snake_key[OF call token_keys_snake(2) s2]
  from s3 obtain str where "s3 = s2\<lparr>localStorage := (localStorage s2)(''user_email'' \<mapsto> str)\<rparr>"
    by (auto simp: setItemProp_def split: sum.splits)
  with a b s' show ?thesis by simp
qed

lemma refreshAndRetry_never_stores_tokens:
  "localStorage (refreshAndRetry net cancelled refreshToken email s) ''access_token''
     \<in> {None, Some ''undefined''}
   \<and> localStorage (refreshAndRetry net cancelled refreshToken email s) ''refresh_token''
     \<in> {None, Some ''undefined''}"
proof -
  let ?call = "api_post (localStorage s) (net 1) ''/api/auth/refresh''
                 (JObj [(''refreshToken'', JStr refreshToken)])"
  show ?thesis
  proof (cases ?call)
    case (Inl e)
    then show ?thesis by (simp add: refreshAndRetry_def clearAuth_def)
  next
    case (Inr data)
    then have call: "apiClient (localStorage s) (net 1) ''/api/auth/refresh''
      \<lparr>methodOpt = Some POST, body = JObj [(''refreshToken'', JStr refreshToken)], headers = []\<rparr> = Inr data"
      by (simp add: api_post_def)
    show ?thesis
    proof (cases "setItemProp s ''access_token'' data ''access_token''")
      case Inl
      with Inr show ?thesis by (simp add: refreshAndRetry_def clearAuth_def)
    next
      case s1: (Inr s1)
      note a = setItemProp_snake_key[OF call token_keys_snake(1) s1]
      show ?thesis
      proof (cases "setItemProp s1 ''refresh_token'' data ''refresh_token''")
        case Inl
        with Inr s1 show ?thesis by (simp add: refreshAndRetry_def clearAuth_def)
      next
        case s2: (Inr s2)
        note b = setItemProp_snake_key[OF call token_keys_snake(2) s2]
        from a b have "localStorage s2 ''access_token'' = Some ''undefined''"
          "localStorage s2 ''refresh_token'' = Some ''undefined''" by simp_all
        with Inr s1 s2 show ?thesis
          by (auto simp: refreshAndRetry_def clearAuth_def split: sum.splits)
      qed
    qed
  qed
qed

subsection \<open>Restoring, signing in, signing out\<close>

text \<open>
  C1. After a 401 on the profile fetch, a successful refresh and a successful second
  profile fetch, the stored tokens are to be the ones the refresh endpoint returned.
  \<^verbatim>\<open>apiClient\<close> hands the refresh response over with its keys converted
  (\<^verbatim>\<open>accessToken\<close>, \<^verbatim>\<open>refreshToken\<close>), \<^verbatim>\<open>restoreSession\<close> reads \<^verbatim>\<open>data.access_token\<close> and
  \<^verbatim>\<open>data.refresh_token\<close>, which are \<^verbatim>\<open>undefined\<close>, and \<^verbatim>\<open>setItem\<close> stores the string
  \<^verbatim>\<open>undefined\<close> under both keys. The run ends authenticated all the same.
\<close>

theorem restoreSession_refresh_stores_undefined:
  "api_get (localStorage staleSession) (expiredTokenRun 0) ''/api/auth/profile''
     = Inl (ApiError 401 (JStr ''TOKEN_EXPIRED'') ''Token expired'')
   \<and> api_post (localStorage staleSession) (expiredTokenRun 1) ''/api/auth/refresh''
       (JObj [(''refreshToken'', JStr ''R0'')])
     = Inr (JObj [(''accessToken'', JStr ''A1''), (''refreshToken'', JStr ''R1'')])
   \<and> localStorage (restoreSession expiredTokenRun False staleSession) ''access_token''
       = Some ''undefined''
   \<and> localStorage (restoreSession expiredTokenRun False staleSession) ''refresh_token''
       = Some ''undefined''
   \<and> user (restoreSession expiredTokenRun False staleSession)
       = JObj [(''id'', JStr ''u1''), (''email'', JStr ''a@b.com'')]
   \<and> loading (restoreSession expiredTokenRun False staleSession) = False"
  by code_simp

text \<open>
  C2. After a successful login the returned access token and refresh token are to be
  stored under \<^verbatim>\<open>access_token\<close> and \<^verbatim>\<open>refresh_token\<close>. For the same reason as in
  \<^verbatim>\<open>restoreSession\<close>, \<^verbatim>\<open>signIn\<close> stores the string \<^verbatim>\<open>undefined\<close> under both; the email and
  the session user are the returned ones.
\<close>

theorem signIn_stores_undefined:
  "(case signIn loginAccepted ''a@b.com'' ''pw'' freshSession of
      Inl rejected \<Rightarrow> False
    | Inr s \<Rightarrow>
        localStorage s ''access_token'' = Some ''undefined''
        \<and> localStorage s ''refresh_token'' = Some ''undefined''
        \<and> localStorage s ''user_email'' = Some ''a@b.com''
        \<and> user s = JObj [(''id'', JStr ''u1''), (''email'', JStr ''a@b.com'')])"
  by code_simp

text \<open>
  A run that is cancelled before the failed profile fetch settles changes neither
  \<^verbatim>\<open>user\<close> nor \<^verbatim>\<open>loading\<close>: both updates stand behind \<^verbatim>\<open>if (!cancelled)\<close>.
\<close>

theorem restoreSession_cancelled_leaves_loading:
  "localStorage staleSession ''access_token'' = Some ''A0''
   \<and> api_get (localStorage staleSession) (serverDown 0) ''/api/auth/profile''
       = Inl (ApiError 0 (JStr ''NETWORK_ERROR'') ''Unable to connect to server'')
   \<and> user (restoreSession serverDown True staleSession) = JNull
   \<and> loading (restoreSession serverDown True staleSession) = True"
  by code_simp

text \<open>
  C6, amended. For every run of \<^verbatim>\<open>restoreSession\<close> that is not cancelled, in which a
  non-empty access token is stored and the profile fetch fails with an error that is
  not a 401 \<^verbatim>\<open>ApiError\<close>: the storage is left as it was, and the run ends with the user
  \<^verbatim>\<open>{id: "unknown", email}\<close>, the email being the cached one (the empty string when none
  is cached), and with \<^verbatim>\<open>loading\<close> false.
\<close>

theorem restoreSession_non_auth_failure:
  assumes "localStorage s ''access_token'' = Some token" and "token \<noteq> []"
    and "api_get (localStorage s) (net 0) ''/api/auth/profile'' = Inl err"
    and "\<not> isAuthFailure err"
    and "\<not> cancelled"
  shows "restoreSession net cancelled s
         = s\<lparr>user := JObj [(''id'', JStr ''unknown''),
                            (''email'', JStr (case localStorage s ''user_email'' of
                                                None \<Rightarrow> [] | Some e \<Rightarrow> e))],
              loading := False\<rparr>"
  using assms by (simp add: restoreSession_def restoreAttempt_def authUser_def)

theorem restoreSession_non_auth_failure_witness:
  "restoreSession serverDown False staleSession
     = staleSession\<lparr>user := JObj [(''id'', JStr ''unknown''), (''email'', JStr ''a@b.com'')],
                     loading := False\<rparr>"
  using restoreSession_non_auth_failure
    [where s = staleSession and net = serverDown and cancelled = False and token = "''A0''"
       and err = "ApiError 0 (JStr ''NETWORK_ERROR'') ''Unable to connect to server''"]
  by (simp add: staleSession_def api_get_def apiClient_def serverDown_def)

text \<open>
  C7. Whatever the logout call does, after \<^verbatim>\<open>signOut\<close> the keys \<^verbatim>\<open>access_token\<close>,
  \<^verbatim>\<open>refresh_token\<close> and \<^verbatim>\<open>user_email\<close> are absent from the storage and the session user is
  \<^verbatim>\<open>null\<close>.
\<close>

theorem signOut_clears:
  "localStorage (signOut net s) ''access_token'' = None
   \<and> localStorage (signOut net s) ''refresh_token'' = None
   \<and> localStorage (signOut net s) ''user_email'' = None
   \<and> user (signOut net s) = JNull"
  by (simp add: signOut_def clearAuth_def split: sum.split)

end
